theory Spec2Isabelle
  imports Main "HOL-Library.Word"
begin

section \<open>Python values used by \<^verbatim>\<open>backend/main.py\<close>\<close>

text \<open>
  A Python \<^verbatim>\<open>str\<close> is a sequence of Unicode code points, so a string is a list of
  natural numbers here. String literals of the source are all ASCII and are written
  \<open>ascii ''...''\<close>.
\<close>

type_synonym codepoint = nat
type_synonym pystr = "codepoint list"

definition ascii :: "string \<Rightarrow> pystr" where
  "ascii s = map of_char s"

text \<open>
  \<^verbatim>\<open>str.lower()\<close>. The ASCII letters \<^verbatim>\<open>A\<close>..\<^verbatim>\<open>Z\<close> go to \<^verbatim>\<open>a\<close>..\<^verbatim>\<open>z\<close> and every
  other ASCII code point is kept. Of the code points outside ASCII exactly two have a
  lower-case form that contains an ASCII code point: U+0130 (to \<^verbatim>\<open>i\<close> followed by
  U+0307) and U+212A (to \<^verbatim>\<open>k\<close>); both are written out. Every other code point
  outside ASCII is mapped by Python to code points outside ASCII; the model leaves it in
  place. The source only ever tests the lowered message for an ASCII keyword, and that
  test cannot tell the two apart.
\<close>

definition lower_cp :: "codepoint \<Rightarrow> pystr" where
  "lower_cp c =
     (if 65 \<le> c \<and> c \<le> 90 then [c + 32]
      else if c = 304 then [105, 775]
      else if c = 8490 then [107]
      else [c])"

definition lower :: "pystr \<Rightarrow> pystr" where
  "lower s = concat (map lower_cp s)"

text \<open>
  \<^verbatim>\<open>str.isspace\<close> on one code point, and \<^verbatim>\<open>str.strip()\<close> without argument, which
  removes the leading and the trailing run of such code points.
\<close>

definition isspace :: "codepoint \<Rightarrow> bool" where
  "isspace c \<longleftrightarrow>
     (9 \<le> c \<and> c \<le> 13) \<or> (28 \<le> c \<and> c \<le> 32) \<or> c = 133 \<or> c = 160 \<or> c = 5760 \<or>
     (8192 \<le> c \<and> c \<le> 8202) \<or> c = 8232 \<or> c = 8233 \<or> c = 8239 \<or> c = 8287 \<or>
     c = 12288"

definition strip :: "pystr \<Rightarrow> pystr" where
  "strip s = rev (dropWhile isspace (rev (dropWhile isspace s)))"

text \<open>The operator \<^verbatim>\<open>sub in s\<close> on two strings: \<open>sub\<close> occurs in \<open>s\<close> as a substring.\<close>

fun startswith :: "pystr \<Rightarrow> pystr \<Rightarrow> bool" where
  "startswith s [] = True"
| "startswith [] (k # ks) = False"
| "startswith (c # cs) (k # ks) = (c = k \<and> startswith cs ks)"

fun str_in :: "pystr \<Rightarrow> pystr \<Rightarrow> bool" where
  "str_in sub [] = (sub = [])"
| "str_in sub (c # cs) = (startswith (c # cs) sub \<or> str_in sub cs)"

text \<open>
  What the specification calls containing a keyword case-insensitively, in its own
  words rather than the source's: the keyword occurs in the message once the upper-case
  ASCII letters of the message are read as lower-case ones.
\<close>

definition ascii_lower :: "codepoint \<Rightarrow> codepoint" where
  "ascii_lower c = (if 65 \<le> c \<and> c \<le> 90 then c + 32 else c)"

definition contains_ignoring_case :: "pystr \<Rightarrow> pystr \<Rightarrow> bool" where
  "contains_ignoring_case kw s \<longleftrightarrow> str_in kw (map ascii_lower s)"

text \<open>
  The exceptions that can arise inside the \<^verbatim>\<open>try\<close> block. All of them are subclasses
  of \<^verbatim>\<open>Exception\<close>: the ones \<^verbatim>\<open>requests\<close> raises (connection errors, timeouts,
  invalid header values, a body that is not JSON) and the ones raised by subscripting
  and attribute access on the decoded payload.
\<close>

datatype pyexc =
    ConnectionError
  | Timeout
  | RequestException pystr
  | JSONDecodeError
  | KeyError
  | IndexError
  | TypeError
  | AttributeError

text \<open>
  The values \<^verbatim>\<open>json\<close> decoding produces, which are also the values the request body
  is built from. A float is kept as its 64 bits; an object is the list of the items of
  the decoded \<^verbatim>\<open>dict\<close>, whose keys are distinct.
\<close>

datatype json =
    JNull
  | JBool bool
  | JInt int
  | JFloat "64 word"
  | JStr pystr
  | JArr "json list"
  | JObj "(pystr \<times> json) list"

text \<open>\<^verbatim>\<open>v[k]\<close> for a string key \<open>k\<close>.\<close>

fun getitem_str :: "json \<Rightarrow> pystr \<Rightarrow> pyexc + json" where
  "getitem_str (JObj kvs) k = (case map_of kvs k of Some v \<Rightarrow> Inr v | None \<Rightarrow> Inl KeyError)"
| "getitem_str _ k = Inl TypeError"

text \<open>
  \<^verbatim>\<open>v[i]\<close> for an integer \<open>i\<close>: a list or a string is indexed, negative indices
  counting from the end; a decoded object has string keys only, so an integer is never
  one of them; nothing else can be subscripted.
\<close>

definition seq_index :: "'a list \<Rightarrow> int \<Rightarrow> pyexc + 'a" where
  "seq_index xs i =
     (if 0 \<le> i \<and> i < int (length xs) then Inr (xs ! nat i)
      else if i < 0 \<and> - int (length xs) \<le> i then Inr (xs ! nat (int (length xs) + i))
      else Inl IndexError)"

fun getitem_int :: "json \<Rightarrow> int \<Rightarrow> pyexc + json" where
  "getitem_int (JArr xs) i = seq_index xs i"
| "getitem_int (JStr s) i = (case seq_index s i of Inl e \<Rightarrow> Inl e | Inr c \<Rightarrow> Inr (JStr [c]))"
| "getitem_int (JObj kvs) i = Inl KeyError"
| "getitem_int _ i = Inl TypeError"

text \<open>\<^verbatim>\<open>v.strip()\<close>: only a string has the method.\<close>

fun call_strip :: "json \<Rightarrow> pyexc + pystr" where
  "call_strip (JStr s) = Inr (strip s)"
| "call_strip _ = Inl AttributeError"


section \<open>The world outside the process\<close>

text \<open>
  The arguments of one call of \<^verbatim>\<open>requests.post\<close>, and the part of the
  \<^verbatim>\<open>requests.Response\<close> object the source reads: its status code and what
  \<^verbatim>\<open>response.json()\<close> does, which is to raise or to return the decoded body.
\<close>

record request =
  url :: pystr
  headers :: "(pystr \<times> pystr) list"
  body :: json
  timeout :: int

record Response =
  status_code :: int
  json_result :: "pyexc + json"

text \<open>
  The state a call runs in: the process environment, the remote service (what
  \<^verbatim>\<open>requests.post\<close> raises or returns for a request) and the calls of
  \<^verbatim>\<open>requests.post\<close> made so far. The diagnostic \<^verbatim>\<open>print\<close> statements of the source
  are left out: they write to standard output and return.
\<close>

record world =
  environ :: "pystr \<rightharpoonup> pystr"
  remote :: "request \<Rightarrow> pyexc + Response"
  calls :: "request list"

definition os_getenv :: "pystr \<Rightarrow> world \<Rightarrow> pystr option" where
  "os_getenv name w = environ w name"

definition requests_post :: "request \<Rightarrow> world \<Rightarrow> (pyexc + Response) \<times> world" where
  "requests_post rq w = (remote w rq, w\<lparr>calls := calls w @ [rq]\<rparr>)"

section \<open>\<^verbatim>\<open>get_ai_response\<close>\<close>

text \<open>The f-string \<^verbatim>\<open>f"Bearer {api_key}"\<close>; \<^verbatim>\<open>None\<close> is formatted as \<^verbatim>\<open>None\<close>.\<close>

definition bearer :: "pystr option \<Rightarrow> pystr" where
  "bearer api_key = ascii ''Bearer '' @ (case api_key of None \<Rightarrow> ascii ''None'' | Some k \<Rightarrow> k)"

definition system_message :: json where
  "system_message =
     JObj [(ascii ''role'', JStr (ascii ''system'')),
           (ascii ''content'',
            JStr (ascii ''You are a financial advisor. Give brief, practical advice.''))]"

definition groq_request :: "pystr option \<Rightarrow> pystr \<Rightarrow> request" where
  "groq_request api_key message =
     \<lparr>url = ascii ''https://api.groq.com/openai/v1/chat/completions'',
      headers = [(ascii ''Authorization'', bearer api_key),
                 (ascii ''Content-Type'', ascii ''application/json'')],
      body = JObj [(ascii ''model'', JStr (ascii ''llama3-8b-8192'')),
                   (ascii ''messages'',
                    JArr [system_message,
                          JObj [(ascii ''role'', JStr (ascii ''user'')),
                                (ascii ''content'', JStr message)]]),
                   (ascii ''max_tokens'', JInt 300)],
      timeout = 10\<rparr>"

text \<open>Sequencing of steps that may raise: the first exception ends the sequence.\<close>

definition and_then :: "pyexc + 'a \<Rightarrow> ('a \<Rightarrow> pyexc + 'b) \<Rightarrow> pyexc + 'b" where
  "and_then r f = (case r of Inl e \<Rightarrow> Inl e | Inr v \<Rightarrow> f v)"

text \<open>The expression \<^verbatim>\<open>data["choices"][0]["message"]["content"].strip()\<close>.\<close>

definition first_choice_content :: "json \<Rightarrow> pyexc + pystr" where
  "first_choice_content data =
     and_then (getitem_str data (ascii ''choices'')) (\<lambda>choices.
     and_then (getitem_int choices 0) (\<lambda>choice.
     and_then (getitem_str choice (ascii ''message'')) (\<lambda>msg.
     and_then (getitem_str msg (ascii ''content'')) call_strip)))"

text \<open>
  The body of the \<^verbatim>\<open>try\<close> statement. It raises (\<open>Inl\<close>), returns a value from the
  function (\<open>Inr (Some text)\<close>) or runs to its end (\<open>Inr None\<close>).
\<close>

definition try_block :: "pystr option \<Rightarrow> pystr \<Rightarrow> world \<Rightarrow> (pyexc + pystr option) \<times> world" where
  "try_block api_key message w =
     (case requests_post (groq_request api_key message) w of
        (Inl e, w') \<Rightarrow> (Inl e, w')
      | (Inr response, w') \<Rightarrow>
          if status_code response = 200 then
            (case and_then (json_result response) first_choice_content of
               Inl e \<Rightarrow> (Inl e, w')
             | Inr text \<Rightarrow> (Inr (Some text), w'))
          else (Inr None, w'))"

text \<open>The keyword chain after the \<^verbatim>\<open>try\<close> statement.\<close>

definition budget_tip :: pystr where
  "budget_tip =
     ascii ''Track your income and expenses. Use the 50/30/20 rule: 50% needs, 30% wants, 20% savings.''"

definition invest_tip :: pystr where
  "invest_tip =
     ascii ''Start with low-cost index funds. Invest regularly and don't try to time the market.''"

definition debt_tip :: pystr where
  "debt_tip =
     ascii ''Pay minimum on all debts, then focus extra payments on the highest interest rate debt first.''"

definition generic_prompt :: pystr where
  "generic_prompt =
     ascii ''I can help with budgeting, investing, and debt management. What specific area interests you?''"

definition fallback :: "pystr \<Rightarrow> pystr" where
  "fallback message =
     (if str_in (ascii ''budget'') (lower message) then budget_tip
      else if str_in (ascii ''invest'') (lower message) then invest_tip
      else if str_in (ascii ''debt'') (lower message) then debt_tip
      else generic_prompt)"

text \<open>
  The function itself. \<^verbatim>\<open>except Exception\<close> catches every exception of the
  \<^verbatim>\<open>try\<close> block, after which control reaches the keyword chain, as it does when the
  block runs to its end.
\<close>

definition get_ai_response :: "pystr \<Rightarrow> world \<Rightarrow> (pyexc + pystr) \<times> world" where
  "get_ai_response message w =
     (let api_key = os_getenv (ascii ''GROQ_API_KEY'') w in
      case try_block api_key message w of
        (Inr (Some text), w') \<Rightarrow> (Inr text, w')
      | (Inr None, w') \<Rightarrow> (Inr (fallback message), w')
      | (Inl e, w') \<Rightarrow> (Inr (fallback message), w'))"

section \<open>The two routes\<close>

record ChatMessage =
  message :: pystr

record ChatResponse =
  response :: pystr

definition health_check :: json where
  "health_check = JObj [(ascii ''status'', JStr (ascii ''healthy''))]"

definition chat_endpoint :: "ChatMessage \<Rightarrow> world \<Rightarrow> (pyexc + ChatResponse) \<times> world" where
  "chat_endpoint m w =
     (case get_ai_response (message m) w of
        (Inl e, w') \<Rightarrow> (Inl e, w')
      | (Inr r, w') \<Rightarrow> (Inr \<lparr>response = r\<rparr>, w'))"

text \<open>
  What the framework sends for a route: status 200 with the returned value as JSON when
  the handler returns, status 500 when it raises. A request is one of the two routes the
  source registers; the health route takes whatever query string and body the client
  sent, the chat route a body that has passed validation as a \<open>ChatMessage\<close>.
\<close>

datatype api_request =
    GET_api_health pystr pystr
  | POST_api_chat ChatMessage

record http_response =
  status :: int
  content :: json

definition app :: "api_request \<Rightarrow> world \<Rightarrow> http_response \<times> world" where
  "app rq w =
     (case rq of
        GET_api_health query sent_body \<Rightarrow> (\<lparr>status = 200, content = health_check\<rparr>, w)
      | POST_api_chat m \<Rightarrow>
          (case chat_endpoint m w of
             (Inl e, w') \<Rightarrow>
               (\<lparr>status = 500, content = JStr (ascii ''Internal Server Error'')\<rparr>, w')
           | (Inr r, w') \<Rightarrow>
               (\<lparr>status = 200, content = JObj [(ascii ''response'', JStr (response r))]\<rparr>, w')))"

section \<open>Outcomes of the remote call\<close>

text \<open>
  The payload shape the completion service documents for a success,
  \<^verbatim>\<open>{choices: [{message: {content}}]}\<close>: the content string of the first choice, if the
  decoded body has that shape.
\<close>

fun completion_text :: "json \<Rightarrow> pystr option" where
  "completion_text (JObj kvs) =
     (case map_of kvs (ascii ''choices'') of
        Some (JArr (JObj ch # rest)) \<Rightarrow>
          (case map_of ch (ascii ''message'') of
             Some (JObj msg) \<Rightarrow>
               (case map_of msg (ascii ''content'') of Some (JStr c) \<Rightarrow> Some c | _ \<Rightarrow> None)
           | _ \<Rightarrow> None)
      | _ \<Rightarrow> None)"
| "completion_text _ = None"

text \<open>
  A remote call succeeds when it returns status 200 with a body that decodes to a
  well-formed payload; \<open>remote_text\<close> is then the content of its first choice. Every
  other outcome is a failure: an exception of the transport (no connection, timeout), a
  status other than 200, a body that is not JSON, a payload of another shape.
\<close>

definition remote_text :: "pyexc + Response \<Rightarrow> pystr option" where
  "remote_text r =
     (case r of
        Inl e \<Rightarrow> None
      | Inr resp \<Rightarrow>
          if status_code resp = 200
          then (case json_result resp of Inl e \<Rightarrow> None | Inr data \<Rightarrow> completion_text data)
          else None)"

definition remote_failed :: "pyexc + Response \<Rightarrow> bool" where
  "remote_failed r \<longleftrightarrow> remote_text r = None"

text \<open>The outcome of the call that \<open>get_ai_response msg\<close> makes in world \<open>w\<close>.\<close>

definition outcome :: "pystr \<Rightarrow> world \<Rightarrow> pyexc + Response" where
  "outcome msg w = remote w (groq_request (os_getenv (ascii ''GROQ_API_KEY'') w) msg)"


section \<open>Example worlds\<close>

text \<open>A well-formed payload whose first choice has the content \<open>c\<close>.\<close>

definition completion_payload :: "pystr \<Rightarrow> json" where
  "completion_payload c =
     JObj [(ascii ''choices'',
            JArr [JObj [(ascii ''index'', JInt 0),
                        (ascii ''message'',
                         JObj [(ascii ''role'', JStr (ascii ''assistant'')),
                               (ascii ''content'', JStr c)])]])]"

text \<open>No credential in the environment, and a remote that answers every request.\<close>

definition world_answering :: "pystr \<Rightarrow> world" where
  "world_answering c =
     \<lparr>environ = Map.empty,
      remote = (\<lambda>rq. Inr \<lparr>status_code = 200, json_result = Inr (completion_payload c)\<rparr>),
      calls = []\<rparr>"

text \<open>No credential in the environment, and a remote that refuses with status 401.\<close>

definition world_unauthorized :: world where
  "world_unauthorized =
     \<lparr>environ = Map.empty,
      remote = (\<lambda>rq. Inr \<lparr>status_code = 401,
                            json_result = Inr (JObj [(ascii ''error'', JStr (ascii ''Invalid API Key''))])\<rparr>),
      calls = []\<rparr>"

text \<open>A credential, and a remote that does not answer in time.\<close>

definition world_timeout :: world where
  "world_timeout =
     \<lparr>environ = [ascii ''GROQ_API_KEY'' \<mapsto> ascii ''gsk_example''],
      remote = (\<lambda>rq. Inl Timeout),
      calls = []\<rparr>"

text \<open>A credential, and a remote that answers 200 with an empty list of choices.\<close>

definition world_malformed :: world where
  "world_malformed =
     \<lparr>environ = [ascii ''GROQ_API_KEY'' \<mapsto> ascii ''gsk_example''],
      remote = (\<lambda>rq. Inr \<lparr>status_code = 200,
                            json_result = Inr (JObj [(ascii ''choices'', JArr [])])\<rparr>),
      calls = []\<rparr>"

section \<open>Strings\<close>

lemma startswith_iff: "startswith s sub \<longleftrightarrow> (\<exists>ss. s = sub @ ss)"
  by (induction s sub rule: startswith.induct) auto

text \<open>\<open>str_in\<close> is the substring test.\<close>

lemma str_in_iff: "str_in sub s \<longleftrightarrow> (\<exists>ps ss. s = ps @ sub @ ss)"
proof (induction s)
  case Nil
  then show ?case by auto
next
  case (Cons c cs)
  show ?case
  proof
    assume "str_in sub (c # cs)"
    then consider "startswith (c # cs) sub" | "str_in sub cs" by auto
    then show "\<exists>ps ss. c # cs = ps @ sub @ ss"
    proof cases
      case 1
      then obtain ss where "c # cs = sub @ ss" by (auto simp: startswith_iff)
      then have "c # cs = [] @ sub @ ss" by simp
      then show ?thesis by blast
    next
      case 2
      then obtain ps ss where "cs = ps @ sub @ ss" using Cons.IH by blast
      then have "c # cs = (c # ps) @ sub @ ss" by simp
      then show ?thesis by blast
    qed
  next
    assume "\<exists>ps ss. c # cs = ps @ sub @ ss"
    then obtain ps ss where eq: "c # cs = ps @ sub @ ss" by blast
    show "str_in sub (c # cs)"
    proof (cases ps)
      case Nil
      with eq have "startswith (c # cs) sub" by (auto simp: startswith_iff)
      then show ?thesis by simp
    next
      case (Cons p ps')
      with eq have "cs = ps' @ sub @ ss" by simp
      then have "str_in sub cs" using Cons.IH by blast
      then show ?thesis by simp
    qed
  qed
qed

lemma lower_append: "lower (a @ b) = lower a @ lower b"
  by (simp add: lower_def)

text \<open>
  A keyword is found wherever it stands in the message, in whatever mix of upper and
  lower case: if a part of the message lowers to the keyword, the test on the lowered
  message succeeds.
\<close>

lemma str_in_lower_any_case:
  "lower part = kw \<Longrightarrow> str_in kw (lower (before @ part @ after))"
  unfolding str_in_iff lower_append by blast

text \<open>
  The test of the source, a keyword in the lowered message, is the case-insensitive
  test of the specification. The two code points outside ASCII whose lower-case form
  holds an ASCII letter cannot complete a keyword: \<^verbatim>\<open>k\<close> is in none of them, and the
  \<^verbatim>\<open>i\<close> that U+0130 gives is followed by U+0307.
\<close>

lemma lower_Cons: "lower (c # cs) = lower_cp c @ lower cs"
  by (simp add: lower_def)

lemma lower_cp_cases:
  "lower_cp c = (if c = 304 then [105, 775] else if c = 8490 then [107] else [ascii_lower c])"
  by (simp add: lower_cp_def ascii_lower_def)

lemma ascii_lower_outside: "ascii_lower 304 = 304" "ascii_lower 8490 = 8490"
  by (simp_all add: ascii_lower_def)

lemma startswith_lower:
  assumes "\<forall>k \<in> set ks. k < 128 \<and> k \<noteq> 105 \<and> k \<noteq> 107"
  shows "startswith (lower s) ks = startswith (map ascii_lower s) ks"
  using assms
proof (induction s arbitrary: ks)
  case Nil
  then show ?case by (simp add: lower_def)
next
  case (Cons c cs)
  show ?case
  proof (cases ks)
    case Nil
    then show ?thesis by simp
  next
    case (Cons k ks')
    with Cons.prems have k: "k < 128" "k \<noteq> 105" "k \<noteq> 107"
      and ks': "\<forall>k \<in> set ks'. k < 128 \<and> k \<noteq> 105 \<and> k \<noteq> 107" by auto
    from ks' have IH: "startswith (lower cs) ks' = startswith (map ascii_lower cs) ks'"
      by (rule Cons.IH)
    show ?thesis
      using k IH unfolding Cons lower_Cons lower_cp_cases
      by (auto simp: ascii_lower_outside)
  qed
qed

lemma str_in_lower:
  assumes "k < 128" "k \<noteq> 107" "k2 < 128" "k2 \<noteq> 105" "k2 \<noteq> 107"
    and "\<forall>k \<in> set ks. k < 128 \<and> k \<noteq> 105 \<and> k \<noteq> 107"
  shows "str_in (k # k2 # ks) (lower s) = str_in (k # k2 # ks) (map ascii_lower s)"
proof (induction s)
  case Nil
  then show ?case by (simp add: lower_def)
next
  case (Cons c cs)
  from assms have t: "\<forall>k \<in> set (k2 # ks). k < 128 \<and> k \<noteq> 105 \<and> k \<noteq> 107" by simp
  have sw: "startswith (lower cs) (k2 # ks) = startswith (map ascii_lower cs) (k2 # ks)"
    using t by (rule startswith_lower)
  show ?case
    using assms(1-5) Cons.IH sw unfolding lower_Cons lower_cp_cases
    by (auto simp: ascii_lower_outside)
qed

lemma keyword_test_ignores_case:
  assumes "kw = ascii ''budget'' \<or> kw = ascii ''invest'' \<or> kw = ascii ''debt''"
  shows "str_in kw (lower s) = contains_ignoring_case kw s"
proof -
  have b: "str_in (ascii ''budget'') (lower s) = str_in (ascii ''budget'') (map ascii_lower s)"
    unfolding ascii_def by (simp del: str_in.simps startswith.simps, rule str_in_lower) simp_all
  have i: "str_in (ascii ''invest'') (lower s) = str_in (ascii ''invest'') (map ascii_lower s)"
    unfolding ascii_def by (simp del: str_in.simps startswith.simps, rule str_in_lower) simp_all
  have d: "str_in (ascii ''debt'') (lower s) = str_in (ascii ''debt'') (map ascii_lower s)"
    unfolding ascii_def by (simp del: str_in.simps startswith.simps, rule str_in_lower) simp_all
  from assms b i d show ?thesis unfolding contains_ignoring_case_def by blast
qed

text \<open>
  \<open>strip\<close> removes a run of white space at each end and nothing else, and what is left
  neither starts nor ends with white space.
\<close>

lemma strip_decompose:
  "\<exists>a b. s = a @ strip s @ b \<and> list_all isspace a \<and> list_all isspace b"
proof -
  let ?t = "dropWhile isspace s"
  have 1: "s = takeWhile isspace s @ ?t" by simp
  have "rev ?t = takeWhile isspace (rev ?t) @ dropWhile isspace (rev ?t)" by simp
  then have 2: "?t = strip s @ rev (takeWhile isspace (rev ?t))"
    unfolding strip_def by (metis rev_append rev_rev_ident)
  have 3: "list_all isspace (takeWhile isspace s)"
    by (simp add: list_all_iff) (meson set_takeWhileD)
  have 4: "list_all isspace (rev (takeWhile isspace (rev ?t)))"
    by (simp add: list_all_iff) (meson set_takeWhileD)
  from 1 2 have "s = takeWhile isspace s @ strip s @ rev (takeWhile isspace (rev ?t))"
    by simp
  with 3 4 show ?thesis by blast
qed

lemma strip_ends:
  assumes "strip s \<noteq> []"
  shows "\<not> isspace (hd (strip s)) \<and> \<not> isspace (last (strip s))"
proof -
  let ?t = "dropWhile isspace s"
  let ?u = "dropWhile isspace (rev ?t)"
  from assms have u: "?u \<noteq> []" by (simp add: strip_def)
  then have "\<not> isspace (hd ?u)" by (rule hd_dropWhile)
  then have last: "\<not> isspace (last (strip s))"
    using u by (simp add: strip_def last_rev)
  from u have "rev ?t \<noteq> []" by (metis dropWhile.simps(1))
  then have t: "?t \<noteq> []" by simp
  then have hd_t: "\<not> isspace (hd ?t)" by (rule hd_dropWhile)
  obtain b where "?t = strip s @ b"
    unfolding strip_def by (metis rev_append rev_rev_ident takeWhile_dropWhile_id)
  with assms have "hd (strip s) = hd ?t" by (metis hd_append2)
  with hd_t last show ?thesis by simp
qed

lemma strip_all_space:
  assumes "list_all isspace s"
  shows "strip s = []"
proof -
  from assms have eq: "dropWhile isspace s = []" by (simp add: list_all_iff)
  show ?thesis unfolding strip_def eq by simp
qed


section \<open>The payload\<close>

text \<open>
  The subscript chain of the source returns exactly on the well-formed payloads, with the
  stripped content of the first choice, and raises on every other decoded body.
\<close>

lemma first_choice_content_well_formed:
  "completion_text data = Some c \<Longrightarrow> first_choice_content data = Inr (strip c)"
  by (cases data)
     (auto simp: first_choice_content_def and_then_def seq_index_def
           split: option.splits json.splits list.splits)

lemma first_choice_content_malformed:
  "completion_text data = None \<Longrightarrow> \<exists>e. first_choice_content data = Inl e"
  by (cases data)
     (auto simp: first_choice_content_def and_then_def seq_index_def
           split: option.splits json.splits list.splits sum.splits)

section \<open>The two ways through \<open>get_ai_response\<close>\<close>

lemma try_block_world:
  "snd (try_block k msg w) = w\<lparr>calls := calls w @ [groq_request k msg]\<rparr>"
  by (simp add: try_block_def requests_post_def split: sum.splits)

lemma try_block_success:
  assumes "remote_text (remote w (groq_request k msg)) = Some c"
  shows "fst (try_block k msg w) = Inr (Some (strip c))"
proof -
  from assms obtain resp data where r: "remote w (groq_request k msg) = Inr resp"
    and s: "status_code resp = 200" and j: "json_result resp = Inr data"
    and t: "completion_text data = Some c"
    by (auto simp: remote_text_def split: sum.splits if_splits)
  from t have "first_choice_content data = Inr (strip c)"
    by (rule first_choice_content_well_formed)
  with r s j show ?thesis
    by (simp add: try_block_def requests_post_def and_then_def)
qed

lemma try_block_failure:
  assumes "remote_text (remote w (groq_request k msg)) = None"
  shows "fst (try_block k msg w) = Inr None \<or> (\<exists>e. fst (try_block k msg w) = Inl e)"
proof (cases "remote w (groq_request k msg)")
  case (Inl e)
  then show ?thesis by (simp add: try_block_def requests_post_def)
next
  case (Inr resp)
  show ?thesis
  proof (cases "status_code resp = 200")
    case False
    with Inr show ?thesis by (simp add: try_block_def requests_post_def)
  next
    case True
    show ?thesis
    proof (cases "json_result resp")
      case (Inl e)
      with Inr True show ?thesis
        by (simp add: try_block_def requests_post_def and_then_def)
    next
      case (Inr data)
      with assms \<open>remote w (groq_request k msg) = Inr resp\<close> True
      have "completion_text data = None" by (simp add: remote_text_def)
      then obtain e where "first_choice_content data = Inl e"
        using first_choice_content_malformed by blast
      with Inr \<open>remote w (groq_request k msg) = Inr resp\<close> True show ?thesis
        by (simp add: try_block_def requests_post_def and_then_def)
    qed
  qed
qed

lemma get_ai_response_world:
  "snd (get_ai_response msg w) =
     w\<lparr>calls := calls w @ [groq_request (os_getenv (ascii ''GROQ_API_KEY'') w) msg]\<rparr>"
proof -
  let ?k = "os_getenv (ascii ''GROQ_API_KEY'') w"
  have "snd (get_ai_response msg w) = snd (try_block ?k msg w)"
    by (simp add: get_ai_response_def split: prod.splits sum.splits option.splits)
  then show ?thesis by (simp add: try_block_world)
qed

lemma get_ai_response_success:
  assumes "remote_text (outcome msg w) = Some c"
  shows "fst (get_ai_response msg w) = Inr (strip c)"
proof -
  let ?k = "os_getenv (ascii ''GROQ_API_KEY'') w"
  from assms have "fst (try_block ?k msg w) = Inr (Some (strip c))"
    unfolding outcome_def by (rule try_block_success)
  then show ?thesis
    by (auto simp: get_ai_response_def split: prod.splits)
qed

lemma get_ai_response_failure:
  assumes "remote_failed (outcome msg w)"
  shows "fst (get_ai_response msg w) = Inr (fallback msg)"
proof -
  let ?k = "os_getenv (ascii ''GROQ_API_KEY'') w"
  from assms have "remote_text (remote w (groq_request ?k msg)) = None"
    by (simp add: remote_failed_def outcome_def)
  then have "fst (try_block ?k msg w) = Inr None \<or> (\<exists>e. fst (try_block ?k msg w) = Inl e)"
    by (rule try_block_failure)
  then show ?thesis
    by (auto simp: get_ai_response_def split: prod.splits)
qed

text \<open>The four fixed texts are pairwise different, so the branch taken shows in the reply.\<close>

lemma tips_distinct:
  "budget_tip \<noteq> invest_tip" "budget_tip \<noteq> debt_tip" "budget_tip \<noteq> generic_prompt"
  "invest_tip \<noteq> debt_tip" "invest_tip \<noteq> generic_prompt" "debt_tip \<noteq> generic_prompt"
  by (simp_all add: budget_tip_def invest_tip_def debt_tip_def generic_prompt_def ascii_def)


section \<open>The example worlds, evaluated\<close>

lemma completion_text_payload: "completion_text (completion_payload c) = Some c"
  by (simp add: completion_payload_def ascii_def)

lemma remote_text_answering: "remote_text (outcome msg (world_answering c)) = Some c"
  by (simp add: outcome_def world_answering_def remote_text_def completion_text_payload)

lemma remote_failed_unauthorized: "remote_failed (outcome msg world_unauthorized)"
  by (simp add: remote_failed_def remote_text_def outcome_def world_unauthorized_def)

lemma remote_failed_timeout: "remote_failed (outcome msg world_timeout)"
  by (simp add: remote_failed_def remote_text_def outcome_def world_timeout_def)

lemma remote_failed_malformed: "remote_failed (outcome msg world_malformed)"
  by (simp add: remote_failed_def remote_text_def outcome_def world_malformed_def ascii_def)

lemma getenv_answering: "os_getenv (ascii ''GROQ_API_KEY'') (world_answering c) = None"
  by (simp add: os_getenv_def world_answering_def)

lemma getenv_unauthorized: "os_getenv (ascii ''GROQ_API_KEY'') world_unauthorized = None"
  by (simp add: os_getenv_def world_unauthorized_def)

section \<open>The chat route\<close>

text \<open>
  C1. Whatever the environment holds and whatever the remote call does (it raises, it
  returns a status other than 200, it returns a body that is not a well-formed payload,
  or it succeeds), a validated request to \<^verbatim>\<open>POST /api/chat\<close> is answered with status 200
  and a body \<^verbatim>\<open>{response: s}\<close> for a string \<open>s\<close>: the stripped remote content on success
  and the fallback text on every failure. Status 500 is never sent.
\<close>

theorem chat_always_200:
  "fst (app (POST_api_chat m) w) =
     \<lparr>status = 200,
      content = JObj [(ascii ''response'',
                       JStr (case remote_text (outcome (message m) w) of
                               Some c \<Rightarrow> strip c
                             | None \<Rightarrow> fallback (message m)))]\<rparr>"
proof (cases "remote_text (outcome (message m) w)")
  case None
  then have "remote_failed (outcome (message m) w)" by (simp add: remote_failed_def)
  then have "fst (get_ai_response (message m) w) = Inr (fallback (message m))"
    by (rule get_ai_response_failure)
  with None show ?thesis
    by (auto simp: app_def chat_endpoint_def split: prod.splits)
next
  case (Some c)
  then have "fst (get_ai_response (message m) w) = Inr (strip c)"
    by (rule get_ai_response_success)
  with Some show ?thesis
    by (auto simp: app_def chat_endpoint_def split: prod.splits)
qed

section \<open>Fallback selection\<close>

text \<open>
  C2. When the remote call fails, the reply is chosen by testing the lowered message for
  \<^verbatim>\<open>budget\<close>, then \<^verbatim>\<open>invest\<close>, then \<^verbatim>\<open>debt\<close>, and the first test that succeeds decides:
  a message with \<^verbatim>\<open>budget\<close> gets the budgeting tip whatever else it contains, one with
  \<^verbatim>\<open>invest\<close> but not \<^verbatim>\<open>budget\<close> the investing tip, one with \<^verbatim>\<open>debt\<close> and neither of the
  others the debt tip, and one with none of them the generic prompt.
\<close>

theorem fallback_precedence:
  assumes "remote_failed (outcome msg w)"
  shows "(str_in (ascii ''budget'') (lower msg) \<longrightarrow>
            fst (get_ai_response msg w) = Inr budget_tip) \<and>
         (\<not> str_in (ascii ''budget'') (lower msg) \<and> str_in (ascii ''invest'') (lower msg) \<longrightarrow>
            fst (get_ai_response msg w) = Inr invest_tip) \<and>
         (\<not> str_in (ascii ''budget'') (lower msg) \<and> \<not> str_in (ascii ''invest'') (lower msg) \<and>
          str_in (ascii ''debt'') (lower msg) \<longrightarrow>
            fst (get_ai_response msg w) = Inr debt_tip) \<and>
         (\<not> str_in (ascii ''budget'') (lower msg) \<and> \<not> str_in (ascii ''invest'') (lower msg) \<and>
          \<not> str_in (ascii ''debt'') (lower msg) \<longrightarrow>
            fst (get_ai_response msg w) = Inr generic_prompt)"
proof -
  from assms have "fst (get_ai_response msg w) = Inr (fallback msg)"
    by (rule get_ai_response_failure)
  then show ?thesis by (simp add: fallback_def)
qed

text \<open>
  One message with all three keywords, one with \<^verbatim>\<open>invest\<close> and \<^verbatim>\<open>debt\<close>, one with
  \<^verbatim>\<open>debt\<close> alone and one with none, each against a remote that times out.
\<close>

theorem fallback_precedence_witness:
  "remote_failed (outcome (ascii ''Debt, invest, BUDGET?'') world_timeout) \<and>
   str_in (ascii ''budget'') (lower (ascii ''Debt, invest, BUDGET?'')) \<and>
   str_in (ascii ''invest'') (lower (ascii ''Debt, invest, BUDGET?'')) \<and>
   str_in (ascii ''debt'') (lower (ascii ''Debt, invest, BUDGET?'')) \<and>
   fst (get_ai_response (ascii ''Debt, invest, BUDGET?'') world_timeout) = Inr budget_tip \<and>
   \<not> str_in (ascii ''budget'') (lower (ascii ''Debt or Invest?'')) \<and>
   str_in (ascii ''invest'') (lower (ascii ''Debt or Invest?'')) \<and>
   str_in (ascii ''debt'') (lower (ascii ''Debt or Invest?'')) \<and>
   fst (get_ai_response (ascii ''Debt or Invest?'') world_timeout) = Inr invest_tip \<and>
   \<not> str_in (ascii ''budget'') (lower (ascii ''My DEBT'')) \<and>
   \<not> str_in (ascii ''invest'') (lower (ascii ''My DEBT'')) \<and>
   str_in (ascii ''debt'') (lower (ascii ''My DEBT'')) \<and>
   fst (get_ai_response (ascii ''My DEBT'') world_timeout) = Inr debt_tip \<and>
   \<not> str_in (ascii ''budget'') (lower (ascii ''Pizza'')) \<and>
   \<not> str_in (ascii ''invest'') (lower (ascii ''Pizza'')) \<and>
   \<not> str_in (ascii ''debt'') (lower (ascii ''Pizza'')) \<and>
   fst (get_ai_response (ascii ''Pizza'') world_timeout) = Inr generic_prompt"
proof -
  have t: "\<And>msg. remote_failed (outcome msg world_timeout)" by (rule remote_failed_timeout)
  have a: "str_in (ascii ''budget'') (lower (ascii ''Debt, invest, BUDGET?''))"
    "str_in (ascii ''invest'') (lower (ascii ''Debt, invest, BUDGET?''))"
    "str_in (ascii ''debt'') (lower (ascii ''Debt, invest, BUDGET?''))"
    by (simp_all add: ascii_def lower_def lower_cp_def)
  have b: "\<not> str_in (ascii ''budget'') (lower (ascii ''Debt or Invest?''))"
    "str_in (ascii ''invest'') (lower (ascii ''Debt or Invest?''))"
    "str_in (ascii ''debt'') (lower (ascii ''Debt or Invest?''))"
    by (simp_all add: ascii_def lower_def lower_cp_def)
  have c: "\<not> str_in (ascii ''budget'') (lower (ascii ''My DEBT''))"
    "\<not> str_in (ascii ''invest'') (lower (ascii ''My DEBT''))"
    "str_in (ascii ''debt'') (lower (ascii ''My DEBT''))"
    by (simp_all add: ascii_def lower_def lower_cp_def)
  have d: "\<not> str_in (ascii ''budget'') (lower (ascii ''Pizza''))"
    "\<not> str_in (ascii ''invest'') (lower (ascii ''Pizza''))"
    "\<not> str_in (ascii ''debt'') (lower (ascii ''Pizza''))"
    by (simp_all add: ascii_def lower_def lower_cp_def)
  show ?thesis
    using fallback_precedence [OF t, of "ascii ''Debt, invest, BUDGET?''"]
      fallback_precedence [OF t, of "ascii ''Debt or Invest?''"]
      fallback_precedence [OF t, of "ascii ''My DEBT''"]
      fallback_precedence [OF t, of "ascii ''Pizza''"]
      t a b c d
    by simp
qed


section \<open>The success path\<close>

text \<open>
  C3. When the remote call returns status 200 and its body decodes to a well-formed
  payload, the reply is the content of the first choice with the white space at both
  ends removed, and nothing else is done to it; the message, with or without keywords,
  plays no part.
\<close>

theorem success_returns_stripped_content:
  assumes "outcome msg w = Inr resp"
    and "status_code resp = 200"
    and "json_result resp = Inr data"
    and "completion_text data = Some c"
  shows "fst (get_ai_response msg w) = Inr (strip c)"
proof -
  from assms have "remote_text (outcome msg w) = Some c"
    by (simp add: remote_text_def)
  then show ?thesis by (rule get_ai_response_success)
qed

text \<open>A message full of keywords, answered by the remote with padded content.\<close>

theorem success_returns_stripped_content_witness:
  "outcome (ascii ''budget invest debt'') (world_answering (ascii ''  Save more. ''))
     = Inr \<lparr>status_code = 200,
            json_result = Inr (completion_payload (ascii ''  Save more. ''))\<rparr> \<and>
   completion_text (completion_payload (ascii ''  Save more. '')) = Some (ascii ''  Save more. '') \<and>
   fst (get_ai_response (ascii ''budget invest debt'') (world_answering (ascii ''  Save more. '')))
     = Inr (ascii ''Save more.'')"
proof -
  let ?c = "ascii ''  Save more. ''"
  let ?resp = "\<lparr>status_code = 200, json_result = Inr (completion_payload ?c)\<rparr>"
  have o: "outcome (ascii ''budget invest debt'') (world_answering ?c) = Inr ?resp"
    by (simp add: outcome_def world_answering_def)
  have s: "status_code ?resp = 200" by simp
  have j: "json_result ?resp = Inr (completion_payload ?c)" by simp
  have t: "completion_text (completion_payload ?c) = Some ?c"
    by (rule completion_text_payload)
  have "strip ?c = ascii ''Save more.''"
    by (simp add: strip_def ascii_def isspace_def)
  with success_returns_stripped_content [OF o s j t] o t show ?thesis by simp
qed

text \<open>
  C9. On the same path a content that consists of white space only is returned as the
  empty string: the \<^verbatim>\<open>try\<close> block returns the stripped content from the function for
  every string content, so the keyword chain is not reached.
\<close>

theorem success_never_falls_back:
  assumes "outcome msg w = Inr resp"
    and "status_code resp = 200"
    and "json_result resp = Inr data"
    and "completion_text data = Some c"
  shows "fst (try_block (os_getenv (ascii ''GROQ_API_KEY'') w) msg w) = Inr (Some (strip c)) \<and>
         fst (get_ai_response msg w) = Inr (strip c) \<and>
         (list_all isspace c \<longrightarrow> fst (get_ai_response msg w) = Inr [])"
proof -
  from assms have r: "remote_text (outcome msg w) = Some c"
    by (simp add: remote_text_def)
  then have 1: "fst (try_block (os_getenv (ascii ''GROQ_API_KEY'') w) msg w) = Inr (Some (strip c))"
    unfolding outcome_def by (rule try_block_success)
  from r have 2: "fst (get_ai_response msg w) = Inr (strip c)"
    by (rule get_ai_response_success)
  from 2 have 3: "list_all isspace c \<longrightarrow> fst (get_ai_response msg w) = Inr []"
    by (simp add: strip_all_space)
  from 1 2 3 show ?thesis by simp
qed

text \<open>
  The message asks about a budget and the remote answers with a space, a line feed and
  a tab: the reply is empty, not the budgeting tip.
\<close>

theorem success_never_falls_back_witness:
  "outcome (ascii ''budget'') (world_answering [32, 10, 9])
     = Inr \<lparr>status_code = 200, json_result = Inr (completion_payload [32, 10, 9])\<rparr> \<and>
   completion_text (completion_payload [32, 10, 9]) = Some [32, 10, 9] \<and>
   list_all isspace [32, 10, 9] \<and>
   fst (get_ai_response (ascii ''budget'') (world_answering [32, 10, 9])) = Inr [] \<and>
   fst (get_ai_response (ascii ''budget'') (world_answering [32, 10, 9])) \<noteq> Inr budget_tip"
proof -
  let ?c = "[32, 10, 9] :: pystr"
  let ?resp = "\<lparr>status_code = 200, json_result = Inr (completion_payload ?c)\<rparr>"
  have o: "outcome (ascii ''budget'') (world_answering ?c) = Inr ?resp"
    by (simp add: outcome_def world_answering_def)
  have s: "status_code ?resp = 200" by simp
  have j: "json_result ?resp = Inr (completion_payload ?c)" by simp
  have t: "completion_text (completion_payload ?c) = Some ?c"
    by (rule completion_text_payload)
  have sp: "list_all isspace ?c" by (simp add: isspace_def)
  have ne: "budget_tip \<noteq> []" by (simp add: budget_tip_def ascii_def)
  from success_never_falls_back [OF o s j t] o t sp ne show ?thesis by auto
qed


section \<open>A missing credential\<close>

text \<open>
  C4, as the specification has it: with no credential in the environment no outbound
  call is made. The source has no such guard. In a world without the credential the call
  is made all the same, with the header \<^verbatim>\<open>Authorization: Bearer None\<close>.
\<close>

theorem missing_credential_skips_call_counterexample:
  "os_getenv (ascii ''GROQ_API_KEY'') world_unauthorized = None \<and>
   calls world_unauthorized = [] \<and>
   calls (snd (get_ai_response (ascii ''hi'') world_unauthorized))
     = [groq_request None (ascii ''hi'')] \<and>
   calls (snd (get_ai_response (ascii ''hi'') world_unauthorized)) \<noteq> calls world_unauthorized"
  by (simp add: get_ai_response_world getenv_unauthorized)
     (simp add: world_unauthorized_def)

text \<open>
  C4, amended. With no credential in the environment the one outbound call is still
  made, carrying \<^verbatim>\<open>Bearer None\<close> as its authorization; when that call fails, the reply is
  the fallback text for the message, as after any other failed call.
\<close>

theorem missing_credential_still_calls:
  assumes "os_getenv (ascii ''GROQ_API_KEY'') w = None"
  shows "calls (snd (get_ai_response msg w)) = calls w @ [groq_request None msg] \<and>
         map_of (headers (groq_request None msg)) (ascii ''Authorization'')
           = Some (ascii ''Bearer None'') \<and>
         (remote_failed (remote w (groq_request None msg)) \<longrightarrow>
            fst (get_ai_response msg w) = Inr (fallback msg))"
proof -
  have 1: "calls (snd (get_ai_response msg w)) = calls w @ [groq_request None msg]"
    using assms by (simp add: get_ai_response_world)
  have 2: "map_of (headers (groq_request None msg)) (ascii ''Authorization'')
             = Some (ascii ''Bearer None'')"
    by (simp add: groq_request_def bearer_def ascii_def)
  have 3: "remote_failed (remote w (groq_request None msg)) \<longrightarrow>
             fst (get_ai_response msg w) = Inr (fallback msg)"
  proof
    assume "remote_failed (remote w (groq_request None msg))"
    with assms have "remote_failed (outcome msg w)" by (simp add: outcome_def)
    then show "fst (get_ai_response msg w) = Inr (fallback msg)"
      by (rule get_ai_response_failure)
  qed
  from 1 2 3 show ?thesis by simp
qed

theorem missing_credential_still_calls_witness:
  "os_getenv (ascii ''GROQ_API_KEY'') world_unauthorized = None \<and>
   remote_failed (remote world_unauthorized (groq_request None (ascii ''my debt''))) \<and>
   calls (snd (get_ai_response (ascii ''my debt'') world_unauthorized))
     = [groq_request None (ascii ''my debt'')] \<and>
   fst (get_ai_response (ascii ''my debt'') world_unauthorized) = Inr debt_tip"
proof -
  have f: "remote_failed (remote world_unauthorized (groq_request None (ascii ''my debt'')))"
    by (simp add: remote_failed_def remote_text_def world_unauthorized_def)
  have c: "calls world_unauthorized = []" by (simp add: world_unauthorized_def)
  have d: "fallback (ascii ''my debt'') = debt_tip"
    by (simp add: fallback_def ascii_def lower_def lower_cp_def)
  from missing_credential_still_calls [OF getenv_unauthorized, of "ascii ''my debt''"]
    getenv_unauthorized f c d
  show ?thesis by simp
qed

section \<open>The budgeting tip\<close>

text \<open>
  C5, as the specification has it: a message with \<^verbatim>\<open>budget\<close> gets the budgeting tip
  whenever the remote call fails or the credential is missing. A missing credential does
  not by itself select the fallback: the call is made, and where the remote answers it,
  the answer is the reply.
\<close>

theorem budget_tip_unconfigured_counterexample:
  "os_getenv (ascii ''GROQ_API_KEY'') (world_answering (ascii ''ok'')) = None \<and>
   str_in (ascii ''budget'') (lower (ascii ''budget'')) \<and>
   fst (get_ai_response (ascii ''budget'') (world_answering (ascii ''ok''))) = Inr (ascii ''ok'') \<and>
   fst (get_ai_response (ascii ''budget'') (world_answering (ascii ''ok'')))
     \<noteq> Inr (ascii ''Track your income and expenses. Use the 50/30/20 rule: 50% needs, 30% wants, 20% savings.'')"
proof -
  have 1: "str_in (ascii ''budget'') (lower (ascii ''budget''))"
    by (simp add: ascii_def lower_def lower_cp_def)
  have 2: "fst (get_ai_response (ascii ''budget'') (world_answering (ascii ''ok'')))
             = Inr (strip (ascii ''ok''))"
    using remote_text_answering by (rule get_ai_response_success)
  have 3: "strip (ascii ''ok'') = ascii ''ok''"
    by (simp add: strip_def ascii_def isspace_def)
  have 4: "ascii ''ok'' \<noteq> ascii ''Track your income and expenses. Use the 50/30/20 rule: 50% needs, 30% wants, 20% savings.''"
    by (simp add: ascii_def)
  from 1 2 3 4 getenv_answering show ?thesis by simp
qed

text \<open>
  C5, amended. For every message whose lowered text contains \<^verbatim>\<open>budget\<close>, when the remote
  call fails, with or without a credential in the environment, the reply is exactly the
  budgeting tip.
\<close>

theorem budget_tip_on_failure:
  assumes "remote_failed (outcome msg w)"
    and "str_in (ascii ''budget'') (lower msg)"
  shows "fst (get_ai_response msg w) =
           Inr (ascii ''Track your income and expenses. Use the 50/30/20 rule: 50% needs, 30% wants, 20% savings.'')"
proof -
  from assms(1) have "fst (get_ai_response msg w) = Inr (fallback msg)"
    by (rule get_ai_response_failure)
  with assms(2) show ?thesis by (simp add: fallback_def budget_tip_def)
qed

text \<open>The example of the specification, against a remote that refuses the call.\<close>

theorem budget_tip_on_failure_witness:
  "remote_failed (outcome (ascii ''How should I budget my income?'') world_unauthorized) \<and>
   str_in (ascii ''budget'') (lower (ascii ''How should I budget my income?'')) \<and>
   fst (get_ai_response (ascii ''How should I budget my income?'') world_unauthorized) =
     Inr (ascii ''Track your income and expenses. Use the 50/30/20 rule: 50% needs, 30% wants, 20% savings.'')"
proof -
  have k: "str_in (ascii ''budget'') (lower (ascii ''How should I budget my income?''))"
    by (simp add: ascii_def lower_def lower_cp_def)
  from budget_tip_on_failure [OF remote_failed_unauthorized k] remote_failed_unauthorized k
  show ?thesis by simp
qed

section \<open>The generic prompt\<close>

text \<open>
  C6. For every message whose lowered text contains none of \<^verbatim>\<open>budget\<close>, \<^verbatim>\<open>invest\<close> and
  \<^verbatim>\<open>debt\<close>, when the remote call fails, the reply is exactly the generic prompt. The
  empty message is such a message.
\<close>

theorem generic_prompt_without_keyword:
  assumes "remote_failed (outcome msg w)"
    and "\<not> str_in (ascii ''budget'') (lower msg)"
    and "\<not> str_in (ascii ''invest'') (lower msg)"
    and "\<not> str_in (ascii ''debt'') (lower msg)"
  shows "fst (get_ai_response msg w) =
           Inr (ascii ''I can help with budgeting, investing, and debt management. What specific area interests you?'')"
proof -
  from assms(1) have "fst (get_ai_response msg w) = Inr (fallback msg)"
    by (rule get_ai_response_failure)
  with assms(2-4) show ?thesis by (simp add: fallback_def generic_prompt_def)
qed

text \<open>The empty message, and the example of the specification.\<close>

theorem generic_prompt_without_keyword_witness:
  "remote_failed (outcome [] world_timeout) \<and>
   \<not> str_in (ascii ''budget'') (lower []) \<and>
   \<not> str_in (ascii ''invest'') (lower []) \<and>
   \<not> str_in (ascii ''debt'') (lower []) \<and>
   fst (get_ai_response [] world_timeout) =
     Inr (ascii ''I can help with budgeting, investing, and debt management. What specific area interests you?'') \<and>
   remote_failed (outcome (ascii ''Tell me about pizza'') world_malformed) \<and>
   \<not> str_in (ascii ''budget'') (lower (ascii ''Tell me about pizza'')) \<and>
   \<not> str_in (ascii ''invest'') (lower (ascii ''Tell me about pizza'')) \<and>
   \<not> str_in (ascii ''debt'') (lower (ascii ''Tell me about pizza'')) \<and>
   fst (get_ai_response (ascii ''Tell me about pizza'') world_malformed) =
     Inr (ascii ''I can help with budgeting, investing, and debt management. What specific area interests you?'')"
proof -
  have e: "\<not> str_in (ascii ''budget'') (lower [])" "\<not> str_in (ascii ''invest'') (lower [])"
    "\<not> str_in (ascii ''debt'') (lower [])"
    by (simp_all add: ascii_def lower_def)
  have p: "\<not> str_in (ascii ''budget'') (lower (ascii ''Tell me about pizza''))"
    "\<not> str_in (ascii ''invest'') (lower (ascii ''Tell me about pizza''))"
    "\<not> str_in (ascii ''debt'') (lower (ascii ''Tell me about pizza''))"
    by (simp_all add: ascii_def lower_def lower_cp_def)
  from generic_prompt_without_keyword [OF remote_failed_timeout e]
    generic_prompt_without_keyword [OF remote_failed_malformed p]
    remote_failed_timeout remote_failed_malformed e p
  show ?thesis by simp
qed


section \<open>The outbound call\<close>

text \<open>
  C7. One run of \<open>get_ai_response\<close> adds exactly one call of \<^verbatim>\<open>requests.post\<close> to the
  calls made before it and changes nothing else in the world, whatever the outcome of
  that call, so there is no second attempt. The call goes to the fixed completion
  endpoint with a timeout of 10, a \<^verbatim>\<open>max_tokens\<close> of 300, the fixed system instruction as
  the first message and the user's message as the second.
\<close>

theorem single_outbound_call:
  "snd (get_ai_response msg w) =
     w\<lparr>calls := calls w @ [groq_request (os_getenv (ascii ''GROQ_API_KEY'') w) msg]\<rparr> \<and>
   length (calls (snd (get_ai_response msg w))) = Suc (length (calls w)) \<and>
   url (groq_request k msg) = ascii ''https://api.groq.com/openai/v1/chat/completions'' \<and>
   timeout (groq_request k msg) = 10 \<and>
   getitem_str (body (groq_request k msg)) (ascii ''max_tokens'') = Inr (JInt 300) \<and>
   and_then (getitem_str (body (groq_request k msg)) (ascii ''messages''))
     (\<lambda>ms. getitem_int ms 0)
     = Inr (JObj [(ascii ''role'', JStr (ascii ''system'')),
                  (ascii ''content'',
                   JStr (ascii ''You are a financial advisor. Give brief, practical advice.''))]) \<and>
   and_then (getitem_str (body (groq_request k msg)) (ascii ''messages''))
     (\<lambda>ms. getitem_int ms 1)
     = Inr (JObj [(ascii ''role'', JStr (ascii ''user'')), (ascii ''content'', JStr msg)])"
proof -
  have 1: "snd (get_ai_response msg w) =
             w\<lparr>calls := calls w @ [groq_request (os_getenv (ascii ''GROQ_API_KEY'') w) msg]\<rparr>"
    by (rule get_ai_response_world)
  then have 2: "length (calls (snd (get_ai_response msg w))) = Suc (length (calls w))"
    by simp
  have 3: "url (groq_request k msg) = ascii ''https://api.groq.com/openai/v1/chat/completions''"
    "timeout (groq_request k msg) = 10"
    by (simp_all add: groq_request_def)
  have 4: "getitem_str (body (groq_request k msg)) (ascii ''max_tokens'') = Inr (JInt 300)"
    by (simp add: groq_request_def ascii_def)
  have 5: "getitem_str (body (groq_request k msg)) (ascii ''messages'')
             = Inr (JArr [system_message,
                          JObj [(ascii ''role'', JStr (ascii ''user'')),
                                (ascii ''content'', JStr msg)]])"
    by (simp add: groq_request_def ascii_def)
  have 6: "and_then (getitem_str (body (groq_request k msg)) (ascii ''messages''))
             (\<lambda>ms. getitem_int ms 0)
           = Inr (JObj [(ascii ''role'', JStr (ascii ''system'')),
                  (ascii ''content'',
                   JStr (ascii ''You are a financial advisor. Give brief, practical advice.''))])"
    unfolding 5 by (simp add: and_then_def seq_index_def system_message_def)
  have 7: "and_then (getitem_str (body (groq_request k msg)) (ascii ''messages''))
             (\<lambda>ms. getitem_int ms 1)
           = Inr (JObj [(ascii ''role'', JStr (ascii ''user'')), (ascii ''content'', JStr msg)])"
    unfolding 5 by (simp add: and_then_def seq_index_def)
  from 1 2 3 4 6 7 show ?thesis by blast
qed

section \<open>The health route\<close>

text \<open>
  C8. A request to \<^verbatim>\<open>GET /api/health\<close> is answered with status 200 and the body
  \<^verbatim>\<open>{status: "healthy"}\<close>, whatever the request carries, whatever the environment holds
  and whatever the remote service would do; the world is left as it was, so no outbound
  call is made.
\<close>

theorem health_always_healthy:
  "app (GET_api_health query sent_body) w =
     (\<lparr>status = 200, content = JObj [(ascii ''status'', JStr (ascii ''healthy''))]\<rparr>, w)"
  by (simp add: app_def health_check_def)

section \<open>The reply as a function of message and outcome\<close>

text \<open>
  C10, as the specification has it: a missing credential is one of the failure modes,
  and any two failure modes give the same fallback text for the same message. A missing
  credential is not a failure by itself: the call is made, and where the remote answers
  it, the reply is the answer. So a run without a credential and a run that times out
  can differ on the same message.
\<close>

theorem fallback_missing_credential_counterexample:
  "os_getenv (ascii ''GROQ_API_KEY'') (world_answering (ascii ''ok'')) = None \<and>
   remote_failed (outcome (ascii ''budget'') world_timeout) \<and>
   fst (get_ai_response (ascii ''budget'') (world_answering (ascii ''ok''))) = Inr (ascii ''ok'') \<and>
   fst (get_ai_response (ascii ''budget'') world_timeout) = Inr budget_tip \<and>
   fst (get_ai_response (ascii ''budget'') (world_answering (ascii ''ok'')))
     \<noteq> fst (get_ai_response (ascii ''budget'') world_timeout)"
proof -
  have 1: "fst (get_ai_response (ascii ''budget'') (world_answering (ascii ''ok'')))
             = Inr (strip (ascii ''ok''))"
    using remote_text_answering by (rule get_ai_response_success)
  have 2: "strip (ascii ''ok'') = ascii ''ok''"
    by (simp add: strip_def ascii_def isspace_def)
  have 3: "fst (get_ai_response (ascii ''budget'') world_timeout)
             = Inr (fallback (ascii ''budget''))"
    using remote_failed_timeout by (rule get_ai_response_failure)
  have 4: "fallback (ascii ''budget'') = budget_tip"
    by (simp add: fallback_def ascii_def lower_def lower_cp_def)
  have 5: "ascii ''ok'' \<noteq> budget_tip"
    by (simp add: budget_tip_def ascii_def)
  from 1 2 3 4 5 getenv_answering remote_failed_timeout show ?thesis by simp
qed

text \<open>
  C10, amended. Two runs on the same message whose remote calls both fail, in whatever
  two ways (an exception of the transport, a timeout, a status other than 200, a
  malformed payload) and in whatever two worlds, with or without a credential, give the
  same reply; and two runs on the same message whose remote calls have the same outcome
  give the same reply, whatever else differs between the worlds.
\<close>

theorem fallback_depends_on_message_only:
  "(remote_failed (outcome msg w1) \<and> remote_failed (outcome msg w2) \<longrightarrow>
      fst (get_ai_response msg w1) = fst (get_ai_response msg w2)) \<and>
   (outcome msg w1 = outcome msg w2 \<longrightarrow>
      fst (get_ai_response msg w1) = fst (get_ai_response msg w2))"
proof (intro conjI impI)
  assume "remote_failed (outcome msg w1) \<and> remote_failed (outcome msg w2)"
  then have "fst (get_ai_response msg w1) = Inr (fallback msg)"
    and "fst (get_ai_response msg w2) = Inr (fallback msg)"
    by (simp_all add: get_ai_response_failure)
  then show "fst (get_ai_response msg w1) = fst (get_ai_response msg w2)" by simp
next
  assume same: "outcome msg w1 = outcome msg w2"
  show "fst (get_ai_response msg w1) = fst (get_ai_response msg w2)"
  proof (cases "remote_text (outcome msg w1)")
    case None
    with same have "remote_failed (outcome msg w1)" "remote_failed (outcome msg w2)"
      by (simp_all add: remote_failed_def)
    then have "fst (get_ai_response msg w1) = Inr (fallback msg)"
      and "fst (get_ai_response msg w2) = Inr (fallback msg)"
      by (simp_all add: get_ai_response_failure)
    then show ?thesis by simp
  next
    case (Some c)
    with same have "remote_text (outcome msg w2) = Some c" by simp
    with Some have "fst (get_ai_response msg w1) = Inr (strip c)"
      and "fst (get_ai_response msg w2) = Inr (strip c)"
      by (simp_all add: get_ai_response_success)
    then show ?thesis by simp
  qed
qed

text \<open>
  A missing credential with a refused call against a timeout, and against a malformed
  payload; and two worlds that differ in their earlier calls only.
\<close>

theorem fallback_depends_on_message_only_witness:
  "remote_failed (outcome (ascii ''invest'') world_unauthorized) \<and>
   remote_failed (outcome (ascii ''invest'') world_timeout) \<and>
   outcome (ascii ''invest'') world_unauthorized \<noteq> outcome (ascii ''invest'') world_timeout \<and>
   fst (get_ai_response (ascii ''invest'') world_unauthorized)
     = fst (get_ai_response (ascii ''invest'') world_timeout) \<and>
   fst (get_ai_response (ascii ''invest'') world_timeout) = Inr invest_tip \<and>
   outcome (ascii ''invest'') world_malformed
     = outcome (ascii ''invest'')
         (world_malformed\<lparr>calls := [groq_request None (ascii ''earlier'')]\<rparr>) \<and>
   fst (get_ai_response (ascii ''invest'') world_malformed)
     = fst (get_ai_response (ascii ''invest'')
         (world_malformed\<lparr>calls := [groq_request None (ascii ''earlier'')]\<rparr>))"
proof -
  let ?m = "ascii ''invest''"
  let ?w = "world_malformed\<lparr>calls := [groq_request None (ascii ''earlier'')]\<rparr>"
  have d: "outcome ?m world_unauthorized \<noteq> outcome ?m world_timeout"
    by (simp add: outcome_def world_unauthorized_def world_timeout_def)
  have s: "outcome ?m world_malformed = outcome ?m ?w"
    by (simp add: outcome_def os_getenv_def)
  have i: "fallback ?m = invest_tip"
    by (simp add: fallback_def ascii_def lower_def lower_cp_def)
  have t: "fst (get_ai_response ?m world_timeout) = Inr invest_tip"
    using get_ai_response_failure [OF remote_failed_timeout, of ?m] i by simp
  from fallback_depends_on_message_only [of ?m world_unauthorized world_timeout]
    fallback_depends_on_message_only [of ?m world_malformed ?w]
    remote_failed_unauthorized remote_failed_timeout d s t
  show ?thesis by simp
qed

end
